theory Spec2Isabelle
  imports Complex_Main
begin

section \<open>Numbers and the JavaScript built-ins the code calls\<close>

text \<open>
  A JavaScript number is a double. Every finite double is a real, and the model takes
  the reals as the carrier of the numbers; the non-finite values (NaN, the infinities)
  are left out. The one place where the source can produce a non-finite number from
  finite input is the division by the window width in the tap branch; it is modelled by
  \<open>quotient\<close> below. \<open>null\<close> and \<open>undefined\<close> are the \<open>None\<close> of an option type.

  The result of an arithmetic operation on doubles is rounded, so it is not the result
  of the same operation on the reals. The rounded operations of the engine are therefore
  parameters of the model, collected in a record: the sum, the difference, the product
  and the quotient of two numbers, \<open>Math.hypot\<close>, \<open>Math.atan2\<close> and the constant
  \<open>Math.PI\<close>. Every function of the model that computes takes this record, and the
  theorems hold for every such record, so for the arithmetic of the doubles too; what
  they say about a difference, a distance or an angle they say about the computed one.
  Comparisons, \<open>Math.abs\<close>, \<open>Math.min\<close>, \<open>Math.max\<close>, \<open>Math.floor\<close>, \<open>Math.round\<close> and
  the change of sign are exact on doubles and are the functions of the reals.
\<close>

record arith =
  fl_add :: "real \<Rightarrow> real \<Rightarrow> real"
  fl_sub :: "real \<Rightarrow> real \<Rightarrow> real"
  fl_mul :: "real \<Rightarrow> real \<Rightarrow> real"
  fl_div :: "real \<Rightarrow> real \<Rightarrow> real"
  fl_hypot :: "real \<Rightarrow> real \<Rightarrow> real"
  fl_atan2 :: "real \<Rightarrow> real \<Rightarrow> real"
  fl_PI :: real

text \<open>
  The arithmetic without rounding. It is used for the concrete sessions only. Their
  coordinates and thresholds are whole numbers, so the doubles compute the differences
  and the products exactly as well, and the comparisons the sessions lead to come out
  the same under both arithmetics.
\<close>

definition hypot :: "real \<Rightarrow> real \<Rightarrow> real" where
  "hypot dx dy = sqrt (dx\<^sup>2 + dy\<^sup>2)"

definition atan2 :: "real \<Rightarrow> real \<Rightarrow> real" where
  \<comment> \<open>the angle of the point \<open>(x, y)\<close>, in \<open>(-pi, pi]\<close>\<close>
  "atan2 y x =
     (if 0 < x then arctan (y / x)
      else if x < 0 then (if 0 \<le> y then arctan (y / x) + pi else arctan (y / x) - pi)
      else if 0 < y then pi / 2
      else if y < 0 then - (pi / 2)
      else 0)"

definition exact :: arith where
  "exact = \<lparr>fl_add = (+), fl_sub = (-), fl_mul = (*), fl_div = (/),
             fl_hypot = hypot, fl_atan2 = atan2, fl_PI = pi\<rparr>"

definition quotient :: "arith \<Rightarrow> real \<Rightarrow> real \<Rightarrow> real option" where
  \<comment> \<open>\<open>a / b\<close>; with \<open>b = 0\<close> JavaScript gives NaN or an infinity, here \<open>None\<close>.\<close>
  "quotient ar a b = (if b = 0 then None else Some (fl_div ar a b))"

definition Math_floor :: "real option \<Rightarrow> int option" where
  \<comment> \<open>\<open>Math.floor\<close>; a non-finite argument stays non-finite.\<close>
  "Math_floor q = map_option floor q"

definition element_at :: "'a list \<Rightarrow> int option \<Rightarrow> 'a option" where
  \<comment> \<open>\<open>array[i]\<close>: \<open>undefined\<close> outside the array, also for a non-finite index.\<close>
  "element_at xs i =
     (case i of
        None \<Rightarrow> None
      | Some k \<Rightarrow> (if 0 \<le> k \<and> k < int (length xs) then Some (xs ! nat k) else None))"

definition Math_round :: "real \<Rightarrow> real" where
  \<comment> \<open>\<open>Math.round\<close>: to the nearest integer, a half goes up.\<close>
  "Math_round x = of_int \<lfloor>x + 1 / 2\<rfloor>"

section \<open>TouchGestureListener: the gesture classifier\<close>

type_synonym Point = "real \<times> real"

datatype Direction = X | Y

datatype error = TypeError

record options =
  minDistanceX :: real
  minDistanceY :: real
  clickParts :: real
  yRadian :: real

definition default_options :: "arith \<Rightarrow> options" where
  \<comment> \<open>the defaults of the constructor; that of \<open>yRadian\<close> is \<open>Math.PI / 2\<close>\<close>
  "default_options ar =
     \<lparr>minDistanceX = 20, minDistanceY = 20, clickParts = 3,
      yRadian = fl_div ar (fl_PI ar) 2\<rparr>"

definition minDistance :: "options \<Rightarrow> real" where
  \<comment> \<open>\<open>this.minDistance = Math.min(minDistanceX, minDistanceY)\<close>\<close>
  "minDistance opts = min (minDistanceX opts) (minDistanceY opts)"

text \<open>The variables \<open>startPos\<close>, \<open>lastPos\<close> and \<open>direction\<close> the handlers close over.\<close>

record session =
  startPos :: "Point option"
  lastPos :: "Point option"
  direction :: "Direction option"

definition idle :: session where
  "idle = \<lparr>startPos = None, lastPos = None, direction = None\<rparr>"

text \<open>
  An action is the first argument of \<open>trigger\<close>: a string, or \<open>undefined\<close> when it was
  read from an array out of range. A call \<open>this.trigger(action, offset)\<close> is recorded
  as the pair of its arguments, \<open>offset\<close> being \<open>null\<close> when it is not given.
\<close>

type_synonym action = "string option"

type_synonym fired = "action \<times> real option"

definition bind_err :: "error + 'a \<Rightarrow> ('a \<Rightarrow> error + 'b) \<Rightarrow> error + 'b" where
  "bind_err m f = (case m of Inl e \<Rightarrow> Inl e | Inr v \<Rightarrow> f v)"

fun elem0 :: "Point option \<Rightarrow> error + real" where
  \<comment> \<open>\<open>p[0]\<close>; reading an element of \<open>null\<close> throws.\<close>
  "elem0 None = Inl TypeError"
| "elem0 (Some (a, b)) = Inr a"

fun elem1 :: "Point option \<Rightarrow> error + real" where
  "elem1 None = Inl TypeError"
| "elem1 (Some (a, b)) = Inr b"

definition calculateDirection :: "arith \<Rightarrow> options \<Rightarrow> real \<Rightarrow> real \<Rightarrow> Direction option" where
  "calculateDirection ar opts dx dy =
     (let distance = fl_hypot ar dx dy in
      if distance > minDistance opts then
        (let angle = fl_atan2 ar dy dx in
         if \<bar>fl_sub ar angle
               (fl_div ar (fl_mul ar (if angle > 0 then 1 else - 1) (fl_PI ar)) 2)\<bar>
              < fl_div ar (yRadian opts) 2
         then Some Y else Some X)
      else None)"

definition touchStartHandler :: "real \<Rightarrow> real \<Rightarrow> session" where
  "touchStartHandler x y = \<lparr>startPos = Some (x, y), lastPos = Some (x, y), direction = None\<rparr>"

definition touchCancelHandler :: "session \<Rightarrow> session \<times> fired list" where
  "touchCancelHandler s =
     (idle,
      case direction s of
        Some d \<Rightarrow> [(Some (if d = X then ''cancelx'' else ''cancely''), None)]
      | None \<Rightarrow> [])"

definition touchMoveHandler ::
  "arith \<Rightarrow> options \<Rightarrow> session \<Rightarrow> real \<Rightarrow> real \<Rightarrow> error + session \<times> fired list" where
  "touchMoveHandler ar opts s x y =
     (if startPos s = None then Inr (s, [])
      else
        bind_err (elem0 (startPos s)) (\<lambda>sx.
        bind_err (elem1 (startPos s)) (\<lambda>sy.
          let dx = fl_sub ar x sx; dy = fl_sub ar y sy;
              s1 = s\<lparr>lastPos := Some (x, y)\<rparr>;
              s2 = (if direction s1 = None
                    then s1\<lparr>direction := calculateDirection ar opts dx dy\<rparr> else s1)
          in case direction s2 of
               Some d \<Rightarrow>
                 Inr (s2, [(Some (if d = X then ''movex'' else ''movey''),
                            Some (if d = X then dx else dy))])
             | None \<Rightarrow> Inr (s2, []))))"

definition tapAction :: "arith \<Rightarrow> real \<Rightarrow> real \<Rightarrow> real \<Rightarrow> action" where
  \<comment> \<open>The tap branch of \<open>touchEndHandler\<close>; \<open>w\<close> is \<open>window.innerWidth\<close>.\<close>
  "tapAction ar parts x w =
     (if parts = 2 then
        element_at [''touchleft'', ''touchright'']
          (Math_floor (quotient ar (fl_mul ar x 2) w))
      else if parts = 3 then
        element_at [''touchleft'', ''touchmiddle'', ''touchright'']
          (Math_floor (quotient ar (fl_mul ar x 3) w))
      else Some ''touch'')"

definition touchEndHandler ::
  "arith \<Rightarrow> options \<Rightarrow> real \<Rightarrow> session \<Rightarrow> error + session \<times> fired list" where
  "touchEndHandler ar opts w s =
     (if lastPos s = None \<or> startPos s = None then Inr (touchCancelHandler s)
      else
        bind_err (elem0 (lastPos s)) (\<lambda>lx.
        bind_err (elem0 (startPos s)) (\<lambda>sx.
        bind_err (elem1 (lastPos s)) (\<lambda>ly.
        bind_err (elem1 (startPos s)) (\<lambda>sy.
          let dx = fl_sub ar lx sx; dy = fl_sub ar ly sy;
              offset = (if direction s = Some X then dx
                        else if direction s = Some Y then dy else 0)
          in case direction s of
               None \<Rightarrow> Inr (idle, [(tapAction ar (clickParts opts) sx w, None)])
             | Some d \<Rightarrow>
                 (let minDistanceArrow = (if d = X then minDistanceX opts else minDistanceY opts)
                  in if \<bar>offset\<bar> < minDistanceArrow
                     then Inr (idle, [(Some (if d = X then ''cancelx'' else ''cancely''), None)])
                     else Inr (idle,
                            [(Some (if d = X then (if dx > 0 then ''slideright'' else ''slideleft'')
                                    else (if dy > 0 then ''slidedown'' else ''slideup'')),
                              None)])))))))"

text \<open>
  The four signals the pointer normaliser delivers, and the classifier's reaction to
  one of them and to a sequence of them: the new session and the calls of \<open>trigger\<close>
  made, in order.
\<close>

datatype signal = Start real real | Move real real | End | Cancel

fun step ::
  "arith \<Rightarrow> options \<Rightarrow> real \<Rightarrow> session \<Rightarrow> signal \<Rightarrow> error + session \<times> fired list" where
  "step ar opts w s (Start x y) = Inr (touchStartHandler x y, [])"
| "step ar opts w s (Move x y) = touchMoveHandler ar opts s x y"
| "step ar opts w s End = touchEndHandler ar opts w s"
| "step ar opts w s Cancel = Inr (touchCancelHandler s)"

fun run ::
  "arith \<Rightarrow> options \<Rightarrow> real \<Rightarrow> session \<Rightarrow> signal list \<Rightarrow> error + session \<times> fired list" where
  "run ar opts w s [] = Inr (s, [])"
| "run ar opts w s (g # gs) =
     bind_err (step ar opts w s g) (\<lambda>(s1, fs1).
     bind_err (run ar opts w s1 gs) (\<lambda>(s2, fs2). Inr (s2, fs1 @ fs2)))"

text \<open>A list of positions as the \<open>move\<close> signals of a session.\<close>

definition moves :: "Point list \<Rightarrow> signal list" where
  "moves ms = map (\<lambda>(x, y). Move x y) ms"

section \<open>Listener registry\<close>

text \<open>
  \<open>this.listeners\<close> is a \<open>Map\<close> from an action to the array of its listeners. A
  listener is a function of the caller with effects of its own, so the model keeps it
  opaque (the type variable \<open>'l\<close>) and records each call of one: the listener and the
  list of the arguments it is called with.
\<close>

type_synonym 'l registry = "action \<rightharpoonup> 'l list"

type_synonym 'l invocation = "'l \<times> real option list"

definition trigger :: "'l registry \<Rightarrow> action \<Rightarrow> real option \<Rightarrow> 'l invocation list" where
  "trigger listeners action offset =
     (case listeners action of
        None \<Rightarrow> []
      | Some ls \<Rightarrow> map (\<lambda>listener. (listener, [offset])) ls)"

definition addListener :: "'l registry \<Rightarrow> action \<Rightarrow> 'l \<Rightarrow> 'l registry" where
  "addListener listeners action listener =
     (let listeners1 = (if listeners action = None then listeners(action \<mapsto> []) else listeners)
      in case listeners1 action of
           None \<Rightarrow> listeners1
         | Some ls \<Rightarrow> listeners1(action \<mapsto> ls @ [listener]))"

definition onTouch :: "'l registry \<Rightarrow> 'l \<Rightarrow> 'l registry" where
  "onTouch listeners listener = addListener listeners (Some ''touch'') listener"

definition onTouchLeft :: "'l registry \<Rightarrow> 'l \<Rightarrow> 'l registry" where
  "onTouchLeft listeners listener = addListener listeners (Some ''touchleft'') listener"

definition onTouchRight :: "'l registry \<Rightarrow> 'l \<Rightarrow> 'l registry" where
  "onTouchRight listeners listener = addListener listeners (Some ''touchright'') listener"

definition onTouchMiddle :: "'l registry \<Rightarrow> 'l \<Rightarrow> 'l registry" where
  "onTouchMiddle listeners listener = addListener listeners (Some ''touchmiddle'') listener"

definition onMoveX :: "'l registry \<Rightarrow> 'l \<Rightarrow> 'l registry" where
  "onMoveX listeners listener = addListener listeners (Some ''movex'') listener"

definition onMoveY :: "'l registry \<Rightarrow> 'l \<Rightarrow> 'l registry" where
  "onMoveY listeners listener = addListener listeners (Some ''movey'') listener"

definition onCancelX :: "'l registry \<Rightarrow> 'l \<Rightarrow> 'l registry" where
  "onCancelX listeners listener = addListener listeners (Some ''cancelx'') listener"

definition onCancelY :: "'l registry \<Rightarrow> 'l \<Rightarrow> 'l registry" where
  "onCancelY listeners listener = addListener listeners (Some ''cancely'') listener"

definition onSlideUp :: "'l registry \<Rightarrow> 'l \<Rightarrow> 'l registry" where
  "onSlideUp listeners listener = addListener listeners (Some ''slideup'') listener"

definition onSlideDown :: "'l registry \<Rightarrow> 'l \<Rightarrow> 'l registry" where
  "onSlideDown listeners listener = addListener listeners (Some ''slidedown'') listener"

definition onSlideLeft :: "'l registry \<Rightarrow> 'l \<Rightarrow> 'l registry" where
  "onSlideLeft listeners listener = addListener listeners (Some ''slideleft'') listener"

definition onSlideRight :: "'l registry \<Rightarrow> 'l \<Rightarrow> 'l registry" where
  "onSlideRight listeners listener = addListener listeners (Some ''slideright'') listener"

text \<open>The twelve registration methods, in the order of the source, and their names.\<close>

definition registration_methods :: "('l registry \<Rightarrow> 'l \<Rightarrow> 'l registry) list" where
  "registration_methods =
     [onTouch, onTouchLeft, onTouchRight, onTouchMiddle, onMoveX, onMoveY,
      onCancelX, onCancelY, onSlideUp, onSlideDown, onSlideLeft, onSlideRight]"

definition action_names :: "string list" where
  "action_names =
     [''touch'', ''touchleft'', ''touchright'', ''touchmiddle'', ''movex'', ''movey'',
      ''cancelx'', ''cancely'', ''slideup'', ''slidedown'', ''slideleft'', ''slideright'']"

text \<open>
  A sequence of calls of \<open>addListener\<close>, and the listeners among them that were given
  for one action, in the order of the calls.
\<close>

fun register_all :: "'l registry \<Rightarrow> (action \<times> 'l) list \<Rightarrow> 'l registry" where
  "register_all listeners [] = listeners"
| "register_all listeners ((a, l) # regs) = register_all (addListener listeners a l) regs"

definition registered :: "(action \<times> 'l) list \<Rightarrow> action \<Rightarrow> 'l list" where
  "registered regs a = map snd (filter (\<lambda>r. fst r = a) regs)"

section \<open>TouchMoveListener: the pointer normaliser\<close>

text \<open>
  The state of a \<open>TouchMoveListener\<close>: the flags \<open>mouseDown\<close> and \<open>touchStart\<close> of
  its constructor, and whether the handlers of \<open>addGlobalMouseHandlers\<close> and of
  \<open>addGlobalTouchHandlers\<close> are installed on the document. An event of the page carries
  the \<open>pageX\<close> and \<open>pageY\<close> the handler reads (for a touch event those of the first
  touch), and a handler returns the calls of \<open>triggerCallback\<close> it makes, as signals.
  The touch handlers carry the suffix \<open>_tml\<close>: the classifier has handlers of the same
  names.
\<close>

record normalizer =
  mouseDown :: bool
  touchStart :: bool
  mouseHandlers :: bool
  touchHandlers :: bool

definition initial_normalizer :: normalizer where
  "initial_normalizer =
     \<lparr>mouseDown = False, touchStart = False, mouseHandlers = False, touchHandlers = False\<rparr>"

datatype dom_event =
    Mousedown real real | Mouseup | Mouseleave | Mousemove real real
  | Touchstart real real | Touchend | Touchcancel | Touchmove real real

definition mouseDownHandler :: "normalizer \<Rightarrow> real \<Rightarrow> real \<Rightarrow> normalizer \<times> signal list" where
  "mouseDownHandler n pageX pageY =
     (if touchStart n then (n\<lparr>touchStart := False\<rparr>, [])
      else (n\<lparr>mouseDown := True, mouseHandlers := True\<rparr>, [Start pageX pageY]))"

definition mouseUpHandler :: "normalizer \<Rightarrow> normalizer \<times> signal list" where
  "mouseUpHandler n =
     (n\<lparr>mouseDown := False, mouseHandlers := False\<rparr>, if mouseDown n then [End] else [])"

definition mouseCancelHandler :: "normalizer \<Rightarrow> normalizer \<times> signal list" where
  "mouseCancelHandler n =
     (n\<lparr>mouseDown := False, mouseHandlers := False\<rparr>, if mouseDown n then [End] else [])"

definition mouseMoveHandler :: "normalizer \<Rightarrow> real \<Rightarrow> real \<Rightarrow> normalizer \<times> signal list" where
  "mouseMoveHandler n pageX pageY = (n, if mouseDown n then [Move pageX pageY] else [])"

definition touchStartHandler_tml :: "normalizer \<Rightarrow> real \<Rightarrow> real \<Rightarrow> normalizer \<times> signal list" where
  "touchStartHandler_tml n pageX pageY =
     (n\<lparr>touchStart := True, touchHandlers := True\<rparr>, [Start pageX pageY])"

definition touchEndHandler_tml :: "normalizer \<Rightarrow> normalizer \<times> signal list" where
  "touchEndHandler_tml n = (n\<lparr>touchHandlers := False\<rparr>, if touchStart n then [End] else [])"

definition touchCancelHandler_tml :: "normalizer \<Rightarrow> normalizer \<times> signal list" where
  "touchCancelHandler_tml n =
     (n\<lparr>touchHandlers := False\<rparr>, if touchStart n then [Cancel] else [])"

definition touchMoveHandler_tml :: "normalizer \<Rightarrow> real \<Rightarrow> real \<Rightarrow> normalizer \<times> signal list" where
  "touchMoveHandler_tml n pageX pageY = (n, if touchStart n then [Move pageX pageY] else [])"

text \<open>
  An event reaches its handler only while the handler is installed: \<open>mousedown\<close> and
  \<open>touchstart\<close> on the element from the construction on, the others on the document
  between the add and the remove of the global handlers.
\<close>

fun dom_step :: "normalizer \<Rightarrow> dom_event \<Rightarrow> normalizer \<times> signal list" where
  "dom_step n (Mousedown x y) = mouseDownHandler n x y"
| "dom_step n Mouseup = (if mouseHandlers n then mouseUpHandler n else (n, []))"
| "dom_step n Mouseleave = (if mouseHandlers n then mouseCancelHandler n else (n, []))"
| "dom_step n (Mousemove x y) = (if mouseHandlers n then mouseMoveHandler n x y else (n, []))"
| "dom_step n (Touchstart x y) = touchStartHandler_tml n x y"
| "dom_step n Touchend = (if touchHandlers n then touchEndHandler_tml n else (n, []))"
| "dom_step n Touchcancel = (if touchHandlers n then touchCancelHandler_tml n else (n, []))"
| "dom_step n (Touchmove x y) = (if touchHandlers n then touchMoveHandler_tml n x y else (n, []))"

fun dom_run :: "normalizer \<Rightarrow> dom_event list \<Rightarrow> normalizer \<times> signal list" where
  "dom_run n [] = (n, [])"
| "dom_run n (e # es) =
     (let (n1, gs1) = dom_step n e; (n2, gs2) = dom_run n1 es in (n2, gs1 @ gs2))"

fun is_mousedown :: "dom_event \<Rightarrow> bool" where
  "is_mousedown (Mousedown x y) = True"
| "is_mousedown e = False"

fun is_touchstart :: "dom_event \<Rightarrow> bool" where
  "is_touchstart (Touchstart x y) = True"
| "is_touchstart e = False"

section \<open>RangeInput: the slider\<close>

text \<open>
  The fields \<open>min\<close>, \<open>max\<close> and \<open>step\<close> of a \<open>RangeConfig\<close> carry the suffix \<open>_cfg\<close>.
  \<open>normalizeConfig\<close> takes the three fields of the configuration it is given, each
  \<open>None\<close> when it is not a finite number; \<open>this.config\<close> is always its result.
  \<open>setRatio\<close> returns the \<open>pos\<close> it hands to \<open>updateValue\<close>.
\<close>

record RangeConfig =
  min_cfg :: real
  max_cfg :: real
  step_cfg :: real

definition normalizeConfig :: "real option \<Rightarrow> real option \<Rightarrow> real option \<Rightarrow> RangeConfig" where
  "normalizeConfig cmin cmax cstep =
     (let mn = (case cmin of Some v \<Rightarrow> v | None \<Rightarrow> 0);
          mx = (case cmax of Some v \<Rightarrow> v | None \<Rightarrow> 1);
          (mn, mx) = (if mn \<ge> mx then (0, 1) else (mn, mx));
          st = (case cstep of Some v \<Rightarrow> v | None \<Rightarrow> 1);
          st = (if st \<le> 0 then 1 else st)
      in \<lparr>min_cfg = mn, max_cfg = mx, step_cfg = st\<rparr>)"

definition setRatio :: "arith \<Rightarrow> RangeConfig \<Rightarrow> real \<Rightarrow> real option" where
  "setRatio ar config ratio =
     (let pos = None;
          pos = (if ratio = 1 then Some (max_cfg config) else pos);
          pos = (if ratio = 0 then Some (min_cfg config)
                 else Some (min (max_cfg config) (max (min_cfg config)
                        (fl_add ar
                           (fl_mul ar
                              (Math_round
                                 (fl_div ar
                                    (fl_mul ar (fl_sub ar (max_cfg config) (min_cfg config)) ratio)
                                    (step_cfg config)))
                              (step_cfg config))
                           (min_cfg config)))))
      in pos)"

section \<open>The specification's wording\<close>

text \<open>The action vocabulary as the specification lists it.\<close>

definition spec_action_names :: "string list" where
  "spec_action_names =
     [''touch'', ''touch-left'', ''touch-right'', ''touch-middle'', ''move-x'', ''move-y'',
      ''cancel-x'', ''cancel-y'', ''slide-up'', ''slide-down'', ''slide-left'', ''slide-right'']"

text \<open>
  The angular test as the specification words it: the deviation of the computed angle
  from the vertical ray on the side of the sign of \<open>dy\<close>, compared with half the
  window by a strict \<open><\<close>. Where \<open>dy = 0\<close> the sign of \<open>dy\<close> picks no ray, and the
  ray is the one the code takes, by the sign of the angle.
\<close>

definition spec_ray_sign :: "arith \<Rightarrow> real \<Rightarrow> real \<Rightarrow> real" where
  \<comment> \<open>\<open>1\<close> for the ray at +90 degrees, \<open>- 1\<close> for the ray at -90 degrees\<close>
  "spec_ray_sign ar dx dy =
     (if 0 < dy then 1 else if dy < 0 then - 1
      else if 0 < fl_atan2 ar dy dx then 1 else - 1)"

definition spec_vertical_deviation :: "arith \<Rightarrow> real \<Rightarrow> real \<Rightarrow> real" where
  "spec_vertical_deviation ar dx dy =
     \<bar>fl_sub ar (fl_atan2 ar dy dx)
          (fl_div ar (fl_mul ar (spec_ray_sign ar dx dy) (fl_PI ar)) 2)\<bar>"

definition spec_axis :: "arith \<Rightarrow> real \<Rightarrow> real \<Rightarrow> real \<Rightarrow> Direction" where
  "spec_axis ar window dx dy =
     (if spec_vertical_deviation ar dx dy < fl_div ar window 2 then Y else X)"

section \<open>Basic facts\<close>

lemma bind_err_Inr [simp]: "bind_err (Inr v) f = f v"
  by (simp add: bind_err_def)

lemma bind_err_Inl [simp]: "bind_err (Inl e) f = Inl e"
  by (simp add: bind_err_def)

lemma touchMoveHandler_active:
  assumes "startPos s = Some (sx, sy)"
  shows "touchMoveHandler ar opts s x y =
    Inr (s\<lparr>lastPos := Some (x, y),
            direction := (if direction s = None then calculateDirection ar opts (fl_sub ar x sx) (fl_sub ar y sy)
                          else direction s)\<rparr>,
         case (if direction s = None then calculateDirection ar opts (fl_sub ar x sx) (fl_sub ar y sy)
               else direction s) of
           None \<Rightarrow> []
         | Some d \<Rightarrow> [(Some (if d = X then ''movex'' else ''movey''),
                        Some (if d = X then fl_sub ar x sx else fl_sub ar y sy))])"
  using assms by (simp add: touchMoveHandler_def Let_def split: option.splits)

lemma calculateDirection_None_iff:
  "calculateDirection ar opts dx dy = None \<longleftrightarrow> fl_hypot ar dx dy \<le> minDistance opts"
  by (auto simp: calculateDirection_def Let_def)

lemma touchEndHandler_active:
  assumes "startPos s = Some (sx, sy)" "lastPos s = Some (lx, ly)"
  shows "touchEndHandler ar opts w s =
    Inr (idle,
      [(case direction s of
          None \<Rightarrow> tapAction ar (clickParts opts) sx w
        | Some X \<Rightarrow> Some (if \<bar>fl_sub ar lx sx\<bar> < minDistanceX opts then ''cancelx''
                          else if fl_sub ar lx sx > 0 then ''slideright'' else ''slideleft'')
        | Some Y \<Rightarrow> Some (if \<bar>fl_sub ar ly sy\<bar> < minDistanceY opts then ''cancely''
                          else if fl_sub ar ly sy > 0 then ''slidedown'' else ''slideup''), None)])"
  using assms by (simp add: touchEndHandler_def Let_def split: option.splits Direction.splits)

lemma run_append:
  "run ar opts w s (gs @ hs) =
     bind_err (run ar opts w s gs) (\<lambda>(s1, fs1).
     bind_err (run ar opts w s1 hs) (\<lambda>(s2, fs2). Inr (s2, fs1 @ fs2)))"
  by (induction gs arbitrary: s) (auto simp: bind_err_def split: sum.splits prod.splits)

lemma hypot_gt_iff: "0 \<le> m \<Longrightarrow> m < hypot dx dy \<longleftrightarrow> m\<^sup>2 < dx\<^sup>2 + dy\<^sup>2"
  unfolding hypot_def
  by (metis real_less_rsqrt real_sqrt_less_iff real_sqrt_abs abs_of_nonneg)

lemma hypot_nonneg: "0 \<le> hypot dx dy"
  by (simp add: hypot_def)

lemma arctan_gt_quarter: "pi / 4 < arctan t \<longleftrightarrow> 1 < t"
  using arctan_less_iff[of 1 t] by (simp add: arctan_one)

lemma arctan_lt_neg_quarter: "arctan t < - (pi / 4) \<longleftrightarrow> t < - 1"
  using arctan_less_iff[of t "- 1"] by (simp add: arctan_one arctan_minus)

lemma atan2_pos: "0 < atan2 dy dx \<longleftrightarrow> 0 < dy \<or> (dy = 0 \<and> dx < 0)"
proof -
  consider "0 < dx" | "dx < 0" "0 \<le> dy" | "dx < 0" "dy < 0" | "dx = 0" by linarith
  then show ?thesis
  proof cases
    case 1
    then show ?thesis
      by (simp add: atan2_def zero_less_divide_iff)
  next
    case 2
    have "0 < arctan (dy / dx) + pi"
      using arctan_lbound[of "dy / dx"] pi_gt_zero by linarith
    with 2 show ?thesis by (auto simp: atan2_def)
  next
    case 3
    have "\<not> 0 < arctan (dy / dx) - pi"
      using arctan_ubound[of "dy / dx"] pi_gt_zero by linarith
    with 3 show ?thesis by (auto simp: atan2_def)
  next
    case 4
    then show ?thesis
      using pi_gt_zero by (auto simp: atan2_def)
  qed
qed

lemma vertical_window_default:
  "\<bar>atan2 dy dx - (if atan2 dy dx > 0 then 1 else - 1) * pi / 2\<bar> < pi / 2 / 2
     \<longleftrightarrow> \<bar>dx\<bar> < \<bar>dy\<bar>"
proof -
  have lb: "- (pi / 2) < arctan (dy / dx)" and ub: "arctan (dy / dx) < pi / 2"
    by (rule arctan_lbound, rule arctan_ubound)
  consider "0 < dx" "0 < dy" | "0 < dx" "dy \<le> 0" | "dx < 0" "0 < dy" | "dx < 0" "dy = 0"
    | "dx < 0" "dy < 0" | "dx = 0" "0 < dy" | "dx = 0" "dy < 0" | "dx = 0" "dy = 0"
    by linarith
  then show ?thesis
  proof cases
    case 1
    have a: "atan2 dy dx = arctan (dy / dx)" using 1 by (simp add: atan2_def)
    have p: "0 < atan2 dy dx" using 1 by (simp add: atan2_pos)
    have "\<bar>arctan (dy / dx) - pi / 2\<bar> < pi / 4 \<longleftrightarrow> pi / 4 < arctan (dy / dx)"
      using ub by linarith
    also have "\<dots> \<longleftrightarrow> 1 < dy / dx" by (rule arctan_gt_quarter)
    also have "\<dots> \<longleftrightarrow> \<bar>dx\<bar> < \<bar>dy\<bar>" using 1 by (auto simp: field_simps)
    finally show ?thesis using a p by simp
  next
    case 2
    have a: "atan2 dy dx = arctan (dy / dx)" using 2 by (simp add: atan2_def)
    have p: "\<not> 0 < atan2 dy dx" using 2 by (simp add: atan2_pos)
    have "\<bar>arctan (dy / dx) + pi / 2\<bar> < pi / 4 \<longleftrightarrow> arctan (dy / dx) < - (pi / 4)"
      using lb by linarith
    also have "\<dots> \<longleftrightarrow> dy / dx < - 1" by (rule arctan_lt_neg_quarter)
    also have "\<dots> \<longleftrightarrow> \<bar>dx\<bar> < \<bar>dy\<bar>" using 2 by (auto simp: field_simps)
    finally show ?thesis using a p by simp
  next
    case 3
    have a: "atan2 dy dx = arctan (dy / dx) + pi" using 3 by (simp add: atan2_def)
    have p: "0 < atan2 dy dx" using 3 by (simp add: atan2_pos)
    have "\<bar>arctan (dy / dx) + pi - pi / 2\<bar> < pi / 4 \<longleftrightarrow> arctan (dy / dx) < - (pi / 4)"
      using lb by linarith
    also have "\<dots> \<longleftrightarrow> dy / dx < - 1" by (rule arctan_lt_neg_quarter)
    also have "\<dots> \<longleftrightarrow> \<bar>dx\<bar> < \<bar>dy\<bar>" using 3 by (auto simp: field_simps)
    finally show ?thesis using a p by simp
  next
    case 4
    then show ?thesis using pi_gt_zero by (simp add: atan2_def)
  next
    case 5
    have a: "atan2 dy dx = arctan (dy / dx) - pi" using 5 by (simp add: atan2_def)
    have p: "\<not> 0 < atan2 dy dx" using 5 by (simp add: atan2_pos)
    have "\<bar>arctan (dy / dx) - pi + pi / 2\<bar> < pi / 4 \<longleftrightarrow> pi / 4 < arctan (dy / dx)"
      using ub by linarith
    also have "\<dots> \<longleftrightarrow> 1 < dy / dx" by (rule arctan_gt_quarter)
    also have "\<dots> \<longleftrightarrow> \<bar>dx\<bar> < \<bar>dy\<bar>" using 5 by (auto simp: field_simps)
    finally show ?thesis using a p by simp
  next
    case 6
    then show ?thesis using pi_gt_zero by (simp add: atan2_def)
  next
    case 7
    then show ?thesis using pi_gt_zero by (simp add: atan2_def)
  next
    case 8
    then show ?thesis using pi_gt_zero by (simp add: atan2_def)
  qed
qed

lemma exact_simps [simp]:
  "fl_add exact = (+)" "fl_sub exact = (-)" "fl_mul exact = (*)" "fl_div exact = (/)"
  "fl_hypot exact = hypot" "fl_atan2 exact = atan2" "fl_PI exact = pi"
  by (simp_all add: exact_def)

lemma calculateDirection_default:
  assumes "yRadian opts = pi / 2"
  shows "calculateDirection exact opts dx dy =
     (if hypot dx dy > minDistance opts then Some (if \<bar>dx\<bar> < \<bar>dy\<bar> then Y else X) else None)"
proof -
  have "(\<bar>atan2 dy dx - (if atan2 dy dx > 0 then 1 else - 1) * pi / 2\<bar> < yRadian opts / 2)
          = (\<bar>dx\<bar> < \<bar>dy\<bar>)"
    unfolding assms by (rule vertical_window_default)
  then show ?thesis
    unfolding calculateDirection_def Let_def exact_simps
    by (simp only: if_distrib[of Some] cong: if_cong)
qed

lemma moves_simps [simp]:
  "moves [] = []" "moves ((x, y) # ms) = Move x y # moves ms" "moves (ms @ ns) = moves ms @ moves ns"
  by (simp_all add: moves_def)

lemma run_moves:
  assumes "startPos s = Some (sx, sy)"
  shows "\<exists>s' fs. run ar opts w s (moves ms) = Inr (s', fs)
           \<and> startPos s' = Some (sx, sy)
           \<and> lastPos s' = (if ms = [] then lastPos s else Some (last ms))
           \<and> (direction s \<noteq> None \<longrightarrow> direction s' = direction s)
           \<and> (direction s = None \<longrightarrow>
                 (direction s' = None \<longleftrightarrow>
                    (\<forall>(x, y) \<in> set ms. fl_hypot ar (fl_sub ar x sx) (fl_sub ar y sy) \<le> minDistance opts)))
           \<and> (\<forall>f \<in> set fs. \<exists>d. direction s' = Some d
                 \<and> fst f = Some (if d = X then ''movex'' else ''movey''))"
  using assms
proof (induction ms arbitrary: s)
  case Nil
  then show ?case by simp
next
  case (Cons m ms)
  obtain x y where m: "m = (x, y)" by (cases m)
  define d1 where "d1 = (if direction s = None then calculateDirection ar opts (fl_sub ar x sx) (fl_sub ar y sy)
                          else direction s)"
  define s1 where "s1 = s\<lparr>lastPos := Some (x, y), direction := d1\<rparr>"
  define fs1 where "fs1 = (case d1 of None \<Rightarrow> []
         | Some d \<Rightarrow> [(Some (if d = X then ''movex'' else ''movey''),
                        Some (if d = X then fl_sub ar x sx else fl_sub ar y sy))])"
  have st: "step ar opts w s (Move x y) = Inr (s1, fs1)"
    using touchMoveHandler_active[OF Cons.prems, of ar opts x y] by (simp add: s1_def fs1_def d1_def)
  have sp1: "startPos s1 = Some (sx, sy)" using Cons.prems by (simp add: s1_def)
  from Cons.IH[OF sp1] obtain s' fs where ih:
    "run ar opts w s1 (moves ms) = Inr (s', fs)
     \<and> startPos s' = Some (sx, sy)
     \<and> lastPos s' = (if ms = [] then lastPos s1 else Some (last ms))
     \<and> (direction s1 \<noteq> None \<longrightarrow> direction s' = direction s1)
     \<and> (direction s1 = None \<longrightarrow> (direction s' = None \<longleftrightarrow>
                    (\<forall>(x, y) \<in> set ms. fl_hypot ar (fl_sub ar x sx) (fl_sub ar y sy) \<le> minDistance opts)))
     \<and> (\<forall>f \<in> set fs. \<exists>d. direction s' = Some d
                 \<and> fst f = Some (if d = X then ''movex'' else ''movey''))"
    by (elim exE) (rule that)
  have r: "run ar opts w s1 (moves ms) = Inr (s', fs)"
    and a: "startPos s' = Some (sx, sy)"
    and b: "lastPos s' = (if ms = [] then lastPos s1 else Some (last ms))"
    and c: "direction s1 \<noteq> None \<longrightarrow> direction s' = direction s1"
    and d: "direction s1 = None \<longrightarrow> (direction s' = None \<longleftrightarrow>
                    (\<forall>(x, y) \<in> set ms. fl_hypot ar (fl_sub ar x sx) (fl_sub ar y sy) \<le> minDistance opts))"
    and e: "\<forall>f \<in> set fs. \<exists>d. direction s' = Some d
                 \<and> fst f = Some (if d = X then ''movex'' else ''movey'')"
    using ih by simp_all
  have ds1: "direction s1 = d1" by (simp add: s1_def)
  have run: "run ar opts w s (moves (m # ms)) = Inr (s', fs1 @ fs)"
    using st r by (simp add: m)
  have l: "lastPos s' = Some (last (m # ms))" using b by (simp add: s1_def m)
  have c': "direction s \<noteq> None \<longrightarrow> direction s' = direction s"
    using c ds1 by (auto simp: d1_def)
  have d': "direction s = None \<longrightarrow> (direction s' = None \<longleftrightarrow>
              (\<forall>(x, y) \<in> set (m # ms). fl_hypot ar (fl_sub ar x sx) (fl_sub ar y sy) \<le> minDistance opts))"
  proof
    assume n: "direction s = None"
    then have d1c: "d1 = calculateDirection ar opts (fl_sub ar x sx) (fl_sub ar y sy)" by (simp add: d1_def)
    show "direction s' = None \<longleftrightarrow>
              (\<forall>(x, y) \<in> set (m # ms). fl_hypot ar (fl_sub ar x sx) (fl_sub ar y sy) \<le> minDistance opts)"
    proof (cases d1)
      case None
      then have "fl_hypot ar (fl_sub ar x sx) (fl_sub ar y sy) \<le> minDistance opts"
        using d1c by (simp add: calculateDirection_None_iff)
      then show ?thesis using d ds1 None by (simp add: m)
    next
      case (Some dd)
      then have "\<not> fl_hypot ar (fl_sub ar x sx) (fl_sub ar y sy) \<le> minDistance opts"
        using d1c calculateDirection_None_iff[of ar opts "fl_sub ar x sx" "fl_sub ar y sy"] by simp
      then show ?thesis using c ds1 Some by (simp add: m)
    qed
  qed
  have e': "\<forall>f \<in> set (fs1 @ fs). \<exists>d. direction s' = Some d
                 \<and> fst f = Some (if d = X then ''movex'' else ''movey'')"
  proof
    fix f assume "f \<in> set (fs1 @ fs)"
    then consider "f \<in> set fs1" | "f \<in> set fs" by auto
    then show "\<exists>d. direction s' = Some d \<and> fst f = Some (if d = X then ''movex'' else ''movey'')"
    proof cases
      case 1
      then obtain dd where dd: "d1 = Some dd"
        and "f = (Some (if dd = X then ''movex'' else ''movey''),
                  Some (if dd = X then fl_sub ar x sx else fl_sub ar y sy))"
        by (auto simp: fs1_def split: option.splits)
      then show ?thesis using c ds1 by simp
    next
      case 2
      then show ?thesis using e by blast
    qed
  qed
  show ?case using run a l c' d' e' by (intro exI[of _ s'] exI[of _ "fs1 @ fs"]) simp
qed

lemma calculateDirection_eval:
  assumes "yRadian opts = pi / 2" "0 \<le> minDistance opts"
  shows "calculateDirection exact opts dx dy =
     (if (minDistance opts)\<^sup>2 < dx\<^sup>2 + dy\<^sup>2 then Some (if \<bar>dx\<bar> < \<bar>dy\<bar> then Y else X) else None)"
  using assms by (simp add: calculateDirection_default hypot_gt_iff)

lemma hypot_le_iff: "0 \<le> m \<Longrightarrow> hypot dx dy \<le> m \<longleftrightarrow> dx\<^sup>2 + dy\<^sup>2 \<le> m\<^sup>2"
  using hypot_gt_iff[of m dx dy] by auto

lemmas eval_simps =
  default_options_def minDistance_def touchStartHandler_def idle_def
  calculateDirection_eval hypot_le_iff power2_eq_square
  tapAction_def quotient_def Math_floor_def element_at_def

lemma run_no_error: "\<exists>r. run ar opts w s gs = Inr r"
proof (induction gs arbitrary: s)
  case Nil
  show ?case by simp
next
  case (Cons g gs)
  have "\<exists>r. step ar opts w s g = Inr r"
  proof (cases g)
    case (Move x y)
    show ?thesis
    proof (cases "startPos s")
      case None
      then show ?thesis using Move by (simp add: touchMoveHandler_def)
    next
      case (Some p)
      then show ?thesis using Move touchMoveHandler_active[of s "fst p" "snd p" ar opts x y] by simp
    qed
  next
    case End
    show ?thesis
    proof (cases "lastPos s = None \<or> startPos s = None")
      case True
      then show ?thesis using End by (simp add: touchEndHandler_def)
    next
      case False
      then obtain p q where "startPos s = Some p" "lastPos s = Some q" by auto
      then show ?thesis
        using End touchEndHandler_active[of s "fst p" "snd p" "fst q" "snd q" ar opts w] by simp
    qed
  qed simp_all
  then obtain s1 fs1 where st: "step ar opts w s g = Inr (s1, fs1)" by auto
  from Cons.IH[of s1] obtain s2 fs2 where "run ar opts w s1 gs = Inr (s2, fs2)" by auto
  with st show ?case by simp
qed

lemma run_session:
  "\<exists>s fs. run ar opts w s0 (Start x0 y0 # moves ms) = Inr (s, fs)
      \<and> startPos s = Some (x0, y0)
      \<and> lastPos s = Some (if ms = [] then (x0, y0) else last ms)
      \<and> (direction s = None \<longleftrightarrow>
            (\<forall>(x, y) \<in> set ms. fl_hypot ar (fl_sub ar x x0) (fl_sub ar y y0) \<le> minDistance opts))
      \<and> (\<forall>f \<in> set fs. \<exists>d. direction s = Some d
            \<and> fst f = Some (if d = X then ''movex'' else ''movey''))"
proof -
  have sp: "startPos (touchStartHandler x0 y0) = Some (x0, y0)"
    by (simp add: touchStartHandler_def)
  from run_moves[OF sp, of ar opts w ms] obtain s fs where r:
    "run ar opts w (touchStartHandler x0 y0) (moves ms) = Inr (s, fs)
           \<and> startPos s = Some (x0, y0)
           \<and> lastPos s = (if ms = [] then lastPos (touchStartHandler x0 y0) else Some (last ms))
           \<and> (direction (touchStartHandler x0 y0) \<noteq> None \<longrightarrow> direction s = direction (touchStartHandler x0 y0))
           \<and> (direction (touchStartHandler x0 y0) = None \<longrightarrow>
                 (direction s = None \<longleftrightarrow>
                    (\<forall>(x, y) \<in> set ms. fl_hypot ar (fl_sub ar x x0) (fl_sub ar y y0) \<le> minDistance opts)))
           \<and> (\<forall>f \<in> set fs. \<exists>d. direction s = Some d
                 \<and> fst f = Some (if d = X then ''movex'' else ''movey''))"
    by (elim exE) (rule that)
  have "run ar opts w s0 (Start x0 y0 # moves ms) = Inr (s, fs)"
    using r by simp
  moreover have "lastPos s = Some (if ms = [] then (x0, y0) else last ms)"
    using r by (simp add: touchStartHandler_def)
  moreover have "direction s = None \<longleftrightarrow>
            (\<forall>(x, y) \<in> set ms. fl_hypot ar (fl_sub ar x x0) (fl_sub ar y y0) \<le> minDistance opts)"
    using r by (simp add: touchStartHandler_def)
  ultimately show ?thesis using r by (intro exI[of _ s] exI[of _ fs]) simp
qed

lemmas run_simps = touchMoveHandler_def touchEndHandler_def touchCancelHandler_def Let_def

lemma example_lock_then_cancel:
  "run exact (default_options exact) 300 idle [Start 0 0, Move 15 16, End]
     = Inr (idle, [(Some ''movey'', Some 16), (Some ''cancely'', None)])"
  by (simp add: run_simps eval_simps)

lemma example_slide_right:
  "run exact (default_options exact) 300 idle [Start 0 0, Move 50 2, End]
     = Inr (idle, [(Some ''movex'', Some 50), (Some ''slideright'', None)])"
  by (simp add: run_simps eval_simps)

lemma example_tap_right:
  "run exact (default_options exact) 300 idle [Start 250 50, End] = Inr (idle, [(Some ''touchright'', None)])"
  by (simp add: run_simps eval_simps)

lemma example_tap_after_small_move:
  "run exact (default_options exact) 300 idle [Start 0 0, Move 5 2, End] = Inr (idle, [(Some ''touchleft'', None)])"
  by (simp add: run_simps eval_simps)

lemma example_tap_out_of_range:
  "run exact (default_options exact) 300 idle [Start 300 50, End] = Inr (idle, [(None, None)])"
  by (simp add: run_simps eval_simps)

lemma run_session_end:
  assumes r: "run ar opts w s0 (Start x0 y0 # moves ms) = Inr (s, fs)"
  shows "startPos s = Some (x0, y0)"
    and "lastPos s = Some (if ms = [] then (x0, y0) else last ms)"
    and "direction s = None \<longleftrightarrow>
            (\<forall>(x, y) \<in> set ms. fl_hypot ar (fl_sub ar x x0) (fl_sub ar y y0) \<le> minDistance opts)"
    and "\<forall>f \<in> set fs. \<exists>d. direction s = Some d
            \<and> fst f = Some (if d = X then ''movex'' else ''movey'')"
    and "run ar opts w s0 (Start x0 y0 # moves ms @ [End]) =
           bind_err (touchEndHandler ar opts w s) (\<lambda>(s2, fs2). Inr (s2, fs @ fs2))"
proof -
  from run_session[of ar opts w s0 x0 y0 ms] obtain s' fs' where r':
    "run ar opts w s0 (Start x0 y0 # moves ms) = Inr (s', fs')
      \<and> startPos s' = Some (x0, y0)
      \<and> lastPos s' = Some (if ms = [] then (x0, y0) else last ms)
      \<and> (direction s' = None \<longleftrightarrow>
            (\<forall>(x, y) \<in> set ms. fl_hypot ar (fl_sub ar x x0) (fl_sub ar y y0) \<le> minDistance opts))
      \<and> (\<forall>f \<in> set fs'. \<exists>d. direction s' = Some d
            \<and> fst f = Some (if d = X then ''movex'' else ''movey''))"
    by (elim exE) (rule that)
  have eq: "s' = s" "fs' = fs" using r r' by simp_all
  show "startPos s = Some (x0, y0)" using r' eq by simp
  show "lastPos s = Some (if ms = [] then (x0, y0) else last ms)" using r' eq by simp
  show "direction s = None \<longleftrightarrow>
            (\<forall>(x, y) \<in> set ms. fl_hypot ar (fl_sub ar x x0) (fl_sub ar y y0) \<le> minDistance opts)"
    using r' eq by simp
  show "\<forall>f \<in> set fs. \<exists>d. direction s = Some d
            \<and> fst f = Some (if d = X then ''movex'' else ''movey'')"
    using r' eq by simp
  have ap: "Start x0 y0 # moves ms @ [End] = (Start x0 y0 # moves ms) @ [End]" by simp
  show "run ar opts w s0 (Start x0 y0 # moves ms @ [End]) =
           bind_err (touchEndHandler ar opts w s) (\<lambda>(s2, fs2). Inr (s2, fs @ fs2))"
    unfolding ap run_append r
    by (cases "touchEndHandler ar opts w s") (auto simp: bind_err_def split: prod.splits)
qed

lemma atan2_diagonal: "0 < d \<Longrightarrow> atan2 d d = pi / 4"
  by (simp add: atan2_def arctan_one)

lemma addListener_apply:
  "addListener listeners a l b =
     (if b = a then Some ((case listeners a of None \<Rightarrow> [] | Some ls \<Rightarrow> ls) @ [l])
      else listeners b)"
  by (simp add: addListener_def Let_def split: option.splits)

lemma register_all_apply:
  "register_all listeners regs a =
     (if registered regs a = [] then listeners a
      else Some ((case listeners a of None \<Rightarrow> [] | Some ls \<Rightarrow> ls) @ registered regs a))"
proof (induction regs arbitrary: listeners)
  case Nil
  show ?case by (simp add: registered_def)
next
  case (Cons r regs)
  obtain b l where r: "r = (b, l)" by (cases r)
  show ?case
    unfolding r register_all.simps Cons.IH
    by (simp add: addListener_apply registered_def split: option.splits)
qed

lemma trigger_register_all:
  "trigger (register_all Map.empty regs) a offset
     = map (\<lambda>l. (l, [offset])) (registered regs a)"
  by (simp add: trigger_def register_all_apply)

lemma element_at_cases: "element_at xs i = None \<or> (\<exists>x \<in> set xs. element_at xs i = Some x)"
  by (auto simp: element_at_def split: option.splits)

lemma tapAction_cases:
  "tapAction ar parts x w = None
   \<or> tapAction ar parts x w \<in> Some ` {''touch'', ''touchleft'', ''touchmiddle'', ''touchright''}"
proof -
  consider "parts = 2" | "parts \<noteq> 2" "parts = 3" | "parts \<noteq> 2" "parts \<noteq> 3" by blast
  then show ?thesis
  proof cases
    case 1
    then show ?thesis
      using element_at_cases[of "[''touchleft'', ''touchright'']" "Math_floor (quotient ar (fl_mul ar x 2) w)"]
      by (auto simp: tapAction_def)
  next
    case 2
    then show ?thesis
      using element_at_cases[of "[''touchleft'', ''touchmiddle'', ''touchright'']"
              "Math_floor (quotient ar (fl_mul ar x 3) w)"]
      by (auto simp: tapAction_def)
  next
    case 3
    then show ?thesis by (simp add: tapAction_def)
  qed
qed

lemma step_fired:
  assumes "step ar opts w s g = Inr (s', fs)" "f \<in> set fs"
  shows "(fst f = Some ''movex'' \<or> fst f = Some ''movey'') \<and> snd f \<noteq> None
       \<or> (fst f = None \<or> fst f \<in> Some ` (set action_names - {''movex'', ''movey''})) \<and> snd f = None"
proof (cases g)
  case (Start x y)
  then show ?thesis using assms by simp
next
  case (Move x y)
  show ?thesis
  proof (cases "startPos s")
    case None
    then show ?thesis using assms Move by (simp add: touchMoveHandler_def)
  next
    case (Some p)
    then show ?thesis
      using assms Move touchMoveHandler_active[of s "fst p" "snd p" ar opts x y]
      by (auto split: option.splits if_splits)
  qed
next
  case End
  show ?thesis
  proof (cases "lastPos s = None \<or> startPos s = None")
    case True
    then show ?thesis using assms End
      by (auto simp: touchEndHandler_def touchCancelHandler_def action_names_def
               split: option.splits if_splits)
  next
    case False
    then obtain p q where pq: "startPos s = Some p" "lastPos s = Some q" by auto
    have "tapAction ar (clickParts opts) (fst p) w = None
          \<or> tapAction ar (clickParts opts) (fst p) w \<in> Some ` {''touch'', ''touchleft'', ''touchmiddle'', ''touchright''}"
      by (rule tapAction_cases)
    then show ?thesis
      using assms End pq touchEndHandler_active[of s "fst p" "snd p" "fst q" "snd q" ar opts w]
      by (auto simp: action_names_def split: option.splits Direction.splits if_splits)
  qed
next
  case Cancel
  then show ?thesis using assms
    by (auto simp: touchCancelHandler_def action_names_def split: option.splits if_splits)
qed

lemma run_fired:
  assumes "run ar opts w s gs = Inr (s', fs)" "f \<in> set fs"
  shows "(fst f = Some ''movex'' \<or> fst f = Some ''movey'') \<and> snd f \<noteq> None
       \<or> (fst f = None \<or> fst f \<in> Some ` (set action_names - {''movex'', ''movey''})) \<and> snd f = None"
  using assms
proof (induction gs arbitrary: s fs)
  case Nil
  then show ?case by simp
next
  case (Cons g gs)
  from run_no_error[of ar opts w s "[g]"] obtain s1 fs1 where st: "step ar opts w s g = Inr (s1, fs1)"
    by (cases "step ar opts w s g") auto
  from run_no_error[of ar opts w s1 gs] obtain s2 fs2 where r: "run ar opts w s1 gs = Inr (s2, fs2)"
    by (cases "run ar opts w s1 gs") auto
  have eq: "fs = fs1 @ fs2" "s2 = s'" using Cons.prems(1) st r by simp_all
  then consider "f \<in> set fs1" | "f \<in> set fs2" using Cons.prems(2) by auto
  then show ?case
  proof cases
    case 1
    then show ?thesis by (rule step_fired[OF st])
  next
    case 2
    then show ?thesis using Cons.IH[of s1 fs2] r eq by simp
  qed
qed

lemma example_touch:
  "run exact ((default_options exact)\<lparr>clickParts := 1\<rparr>) 300 idle [Start 250 50, End]
     = Inr (idle, [(Some ''touch'', None)])"
  by (simp add: run_simps eval_simps)

lemma example_tap_left:
  "run exact (default_options exact) 300 idle [Start 50 50, End] = Inr (idle, [(Some ''touchleft'', None)])"
  by (simp add: run_simps eval_simps)

lemma example_tap_middle:
  "run exact (default_options exact) 300 idle [Start 150 50, End] = Inr (idle, [(Some ''touchmiddle'', None)])"
  by (simp add: run_simps eval_simps)

lemma example_slide_left:
  "run exact (default_options exact) 300 idle [Start 0 0, Move (- 50) 2, End]
     = Inr (idle, [(Some ''movex'', Some (- 50)), (Some ''slideleft'', None)])"
  by (simp add: run_simps eval_simps)

lemma example_slide_down:
  "run exact (default_options exact) 300 idle [Start 0 0, Move 2 50, End]
     = Inr (idle, [(Some ''movey'', Some 50), (Some ''slidedown'', None)])"
  by (simp add: run_simps eval_simps)

lemma example_slide_up:
  "run exact (default_options exact) 300 idle [Start 0 0, Move 2 (- 50), End]
     = Inr (idle, [(Some ''movey'', Some (- 50)), (Some ''slideup'', None)])"
  by (simp add: run_simps eval_simps)

lemma example_cancel_x:
  "run exact (default_options exact) 300 idle [Start 0 0, Move 50 2, Cancel]
     = Inr (idle, [(Some ''movex'', Some 50), (Some ''cancelx'', None)])"
  by (simp add: run_simps eval_simps)

lemma example_cancel_y:
  "run exact (default_options exact) 300 idle [Start 0 0, Move 2 50, Cancel]
     = Inr (idle, [(Some ''movey'', Some 50), (Some ''cancely'', None)])"
  by (simp add: run_simps eval_simps)

lemma every_name_fires:
  "\<forall>n \<in> set action_names. \<exists>opts w gs s' fs off.
      run exact opts w idle gs = Inr (s', fs) \<and> (Some n, off) \<in> set fs"
proof -
  have e: "\<And>n opts w gs s' fs off. run exact opts w idle gs = Inr (s', fs) \<Longrightarrow> (Some n, off) \<in> set fs
      \<Longrightarrow> \<exists>opts w gs s' fs off. run exact opts w idle gs = Inr (s', fs) \<and> (Some n, off) \<in> set fs"
    by blast
  have "\<exists>opts w gs s' fs off. run exact opts w idle gs = Inr (s', fs) \<and> (Some ''touch'', off) \<in> set fs"
    by (rule e[OF example_touch]) simp
  moreover have "\<exists>opts w gs s' fs off. run exact opts w idle gs = Inr (s', fs) \<and> (Some ''touchleft'', off) \<in> set fs"
    by (rule e[OF example_tap_left]) simp
  moreover have "\<exists>opts w gs s' fs off. run exact opts w idle gs = Inr (s', fs) \<and> (Some ''touchright'', off) \<in> set fs"
    by (rule e[OF example_tap_right]) simp
  moreover have "\<exists>opts w gs s' fs off. run exact opts w idle gs = Inr (s', fs) \<and> (Some ''touchmiddle'', off) \<in> set fs"
    by (rule e[OF example_tap_middle]) simp
  moreover have "\<exists>opts w gs s' fs off. run exact opts w idle gs = Inr (s', fs) \<and> (Some ''movex'', off) \<in> set fs"
    by (rule e[OF example_slide_right]) simp
  moreover have "\<exists>opts w gs s' fs off. run exact opts w idle gs = Inr (s', fs) \<and> (Some ''movey'', off) \<in> set fs"
    by (rule e[OF example_slide_down]) simp
  moreover have "\<exists>opts w gs s' fs off. run exact opts w idle gs = Inr (s', fs) \<and> (Some ''cancelx'', off) \<in> set fs"
    by (rule e[OF example_cancel_x]) simp
  moreover have "\<exists>opts w gs s' fs off. run exact opts w idle gs = Inr (s', fs) \<and> (Some ''cancely'', off) \<in> set fs"
    by (rule e[OF example_cancel_y]) simp
  moreover have "\<exists>opts w gs s' fs off. run exact opts w idle gs = Inr (s', fs) \<and> (Some ''slideup'', off) \<in> set fs"
    by (rule e[OF example_slide_up]) simp
  moreover have "\<exists>opts w gs s' fs off. run exact opts w idle gs = Inr (s', fs) \<and> (Some ''slidedown'', off) \<in> set fs"
    by (rule e[OF example_slide_down]) simp
  moreover have "\<exists>opts w gs s' fs off. run exact opts w idle gs = Inr (s', fs) \<and> (Some ''slideleft'', off) \<in> set fs"
    by (rule e[OF example_slide_left]) simp
  moreover have "\<exists>opts w gs s' fs off. run exact opts w idle gs = Inr (s', fs) \<and> (Some ''slideright'', off) \<in> set fs"
    by (rule e[OF example_slide_right]) simp
  ultimately show ?thesis unfolding action_names_def by simp
qed

lemma dom_addListener: "dom (addListener listeners a l) = insert a (dom listeners)"
  by (auto simp: addListener_apply dom_def)

lemma registration_methods_names:
  "map (\<lambda>m. dom (m Map.empty l)) registration_methods = map (\<lambda>n. {Some n}) action_names"
  by (simp add: registration_methods_def action_names_def dom_addListener
        onTouch_def onTouchLeft_def onTouchRight_def onTouchMiddle_def onMoveX_def onMoveY_def
        onCancelX_def onCancelY_def onSlideUp_def onSlideDown_def onSlideLeft_def
        onSlideRight_def)

lemmas tml_defs = mouseDownHandler_def mouseUpHandler_def mouseCancelHandler_def
  mouseMoveHandler_def touchStartHandler_tml_def touchEndHandler_tml_def
  touchCancelHandler_tml_def touchMoveHandler_tml_def

lemma dom_step_flag:
  "\<not> is_mousedown e \<Longrightarrow> touchStart (fst (dom_step n e)) = (touchStart n \<or> is_touchstart e)"
  by (cases e) (simp_all add: tml_defs)

lemma dom_run_flag:
  "\<forall>e \<in> set es. \<not> is_mousedown e \<Longrightarrow>
     touchStart (fst (dom_run n es)) = (touchStart n \<or> (\<exists>e \<in> set es. is_touchstart e))"
proof (induction es arbitrary: n)
  case Nil
  show ?case by simp
next
  case (Cons e es)
  have e: "\<not> is_mousedown e" and es: "\<forall>e \<in> set es. \<not> is_mousedown e" using Cons.prems by simp_all
  have "fst (dom_run n (e # es)) = fst (dom_run (fst (dom_step n e)) es)"
    by (simp add: Let_def split: prod.splits)
  then show ?case using Cons.IH[OF es, of "fst (dom_step n e)"] dom_step_flag[OF e, of n] by auto
qed

section \<open>The claims\<close>

text \<open>
  C1, amended. A session \<open>start(x0, y0)\<close>, any number of \<open>move\<close>s none of which has a
  computed distance from the start position above \<open>minDistance\<close>, then \<open>end\<close>, makes
  exactly one call of \<open>trigger\<close>, with no offset. With \<open>clickParts\<close> 2 or 3 its action is
  read from \<open>touchleft, touchright\<close> or from \<open>touchleft, touchmiddle, touchright\<close> at the
  computed index \<open>floor (x0 * clickParts / w)\<close>, where \<open>x0\<close> is the \<open>pageX\<close> of the start
  and \<open>w\<close> is \<open>window.innerWidth\<close>: a tap action when the index lies inside the list, and
  \<open>undefined\<close>, so that no tap action fires, when it does not or when \<open>w\<close> is 0. With any
  other \<open>clickParts\<close> the action is \<open>touch\<close>, whatever the position.
\<close>
theorem tap_session_fires_one_zone_action:
  assumes "\<forall>(x, y) \<in> set ms. fl_hypot ar (fl_sub ar x x0) (fl_sub ar y y0) \<le> minDistance opts"
  shows "run ar opts w s0 (Start x0 y0 # moves ms @ [End]) =
           Inr (idle, [(tapAction ar (clickParts opts) x0 w, None)])
         \<and> tapAction ar (clickParts opts) x0 w =
             (if clickParts opts = 2 then
                (let k = \<lfloor>fl_div ar (fl_mul ar x0 2) w\<rfloor>
                 in if w \<noteq> 0 \<and> 0 \<le> k \<and> k < 2
                    then Some ([''touchleft'', ''touchright''] ! nat k) else None)
              else if clickParts opts = 3 then
                (let k = \<lfloor>fl_div ar (fl_mul ar x0 3) w\<rfloor>
                 in if w \<noteq> 0 \<and> 0 \<le> k \<and> k < 3
                    then Some ([''touchleft'', ''touchmiddle'', ''touchright''] ! nat k) else None)
              else Some ''touch'')"
proof
  from run_session[of ar opts w s0 x0 y0 ms] obtain s fs where r:
    "run ar opts w s0 (Start x0 y0 # moves ms) = Inr (s, fs)
      \<and> startPos s = Some (x0, y0)
      \<and> lastPos s = Some (if ms = [] then (x0, y0) else last ms)
      \<and> (direction s = None \<longleftrightarrow>
            (\<forall>(x, y) \<in> set ms. fl_hypot ar (fl_sub ar x x0) (fl_sub ar y y0) \<le> minDistance opts))
      \<and> (\<forall>f \<in> set fs. \<exists>d. direction s = Some d
            \<and> fst f = Some (if d = X then ''movex'' else ''movey''))"
    by (elim exE) (rule that)
  have d: "direction s = None" using r assms by simp
  have "\<forall>f \<in> set fs. False" using r d by simp
  then have fs: "fs = []" by (cases fs) auto
  obtain lx ly where l: "lastPos s = Some (lx, ly)"
    using r by (cases "if ms = [] then (x0, y0) else last ms") simp
  have sp: "startPos s = Some (x0, y0)" using r by simp
  have e: "touchEndHandler ar opts w s = Inr (idle, [(tapAction ar (clickParts opts) x0 w, None)])"
    using touchEndHandler_active[OF sp l, of ar opts w] d by simp
  have ap: "Start x0 y0 # moves ms @ [End] = (Start x0 y0 # moves ms) @ [End]" by simp
  show "run ar opts w s0 (Start x0 y0 # moves ms @ [End])
          = Inr (idle, [(tapAction ar (clickParts opts) x0 w, None)])"
    unfolding ap run_append using r fs e by simp
  show "tapAction ar (clickParts opts) x0 w =
             (if clickParts opts = 2 then
                (let k = \<lfloor>fl_div ar (fl_mul ar x0 2) w\<rfloor>
                 in if w \<noteq> 0 \<and> 0 \<le> k \<and> k < 2
                    then Some ([''touchleft'', ''touchright''] ! nat k) else None)
              else if clickParts opts = 3 then
                (let k = \<lfloor>fl_div ar (fl_mul ar x0 3) w\<rfloor>
                 in if w \<noteq> 0 \<and> 0 \<le> k \<and> k < 3
                    then Some ([''touchleft'', ''touchmiddle'', ''touchright''] ! nat k) else None)
              else Some ''touch'')"
    by (simp add: tapAction_def quotient_def Math_floor_def element_at_def Let_def)
qed

theorem tap_session_fires_one_zone_action_witness:
  "fl_hypot exact (fl_sub exact 255 250) (fl_sub exact 52 50) \<le> minDistance (default_options exact)
   \<and> run exact (default_options exact) 300 idle (Start 250 50 # moves [(255, 52)] @ [End])
        = Inr (idle, [(Some ''touchright'', None)])
   \<and> run exact (default_options exact) 300 idle (Start 250 50 # moves [] @ [End])
        = Inr (idle, [(Some ''touchright'', None)])
   \<and> run exact (default_options exact) 300 idle (Start 450 50 # moves [] @ [End])
        = Inr (idle, [(None, None)])"
proof -
  have h1: "\<forall>(x, y) \<in> set [(255, 52)].
              fl_hypot exact (fl_sub exact x 250) (fl_sub exact y 50)
                \<le> minDistance (default_options exact)"
    by (simp add: eval_simps)
  have h0: "\<forall>(x, y) \<in> set [].
              fl_hypot exact (fl_sub exact x x0) (fl_sub exact y 50)
                \<le> minDistance (default_options exact)" for x0
    by simp
  show ?thesis
    using h1
      tap_session_fires_one_zone_action[OF h1, where ?s0.0 = idle and w = 300]
      tap_session_fires_one_zone_action[OF h0, where ?s0.0 = idle and w = 300 and ?x0.0 = 250]
      tap_session_fires_one_zone_action[OF h0, where ?s0.0 = idle and w = 300 and ?x0.0 = 450]
    by (simp add: default_options_def Let_def)
qed

theorem tap_out_of_range_counterexample:
  "run exact (default_options exact) 300 idle [Start 300 50, End] = Inr (idle, [(None, None)])
   \<and> clickParts (default_options exact) = 3
   \<and> \<lfloor>fl_div exact (fl_mul exact 300 3) 300\<rfloor> = 3
   \<and> element_at [''touchleft'', ''touchmiddle'', ''touchright''] (Some 3) = None"
  using example_tap_out_of_range by (simp add: default_options_def element_at_def)

text \<open>
  C2. In a session whose axis is locked to \<open>x\<close> when \<open>end\<close> arrives, every call of
  \<open>trigger\<close> before the end is a \<open>movex\<close>, and the end adds exactly one call:
  \<open>cancelx\<close> if the final \<open>|dx|\<close> is below \<open>minDistanceX\<close>, otherwise \<open>slideright\<close>
  for \<open>dx > 0\<close> and \<open>slideleft\<close> else, where \<open>dx\<close> is the difference the code computes
  between the last and the start position. So neither \<open>movey\<close> nor \<open>cancely\<close> occurs in
  the session, and a short drag never ends in a slide. The same holds for the axis \<open>y\<close>
  with \<open>dy\<close>, \<open>minDistanceY\<close>, \<open>movey\<close>, \<open>cancely\<close>, \<open>slidedown\<close> and \<open>slideup\<close>.
\<close>
theorem locked_axis_session_ends_in_slide_or_cancel:
  assumes "run ar opts w s0 (Start x0 y0 # moves ms) = Inr (s, fs)"
      and "lastPos s = Some (lx, ly)"
  shows "(direction s = Some X \<longrightarrow>
            (\<forall>f \<in> set fs. fst f = Some ''movex'')
            \<and> run ar opts w s0 (Start x0 y0 # moves ms @ [End]) =
                Inr (idle, fs @ [(Some (if \<bar>fl_sub ar lx x0\<bar> < minDistanceX opts then ''cancelx''
                                        else if 0 < fl_sub ar lx x0 then ''slideright''
                                        else ''slideleft''), None)]))
       \<and> (direction s = Some Y \<longrightarrow>
            (\<forall>f \<in> set fs. fst f = Some ''movey'')
            \<and> run ar opts w s0 (Start x0 y0 # moves ms @ [End]) =
                Inr (idle, fs @ [(Some (if \<bar>fl_sub ar ly y0\<bar> < minDistanceY opts then ''cancely''
                                        else if 0 < fl_sub ar ly y0 then ''slidedown''
                                        else ''slideup''), None)]))"
proof -
  note f = run_session_end[OF assms(1)]
  have e: "touchEndHandler ar opts w s =
    Inr (idle,
      [(case direction s of
          None \<Rightarrow> tapAction ar (clickParts opts) x0 w
        | Some X \<Rightarrow> Some (if \<bar>fl_sub ar lx x0\<bar> < minDistanceX opts then ''cancelx''
                          else if fl_sub ar lx x0 > 0 then ''slideright'' else ''slideleft'')
        | Some Y \<Rightarrow> Some (if \<bar>fl_sub ar ly y0\<bar> < minDistanceY opts then ''cancely''
                          else if fl_sub ar ly y0 > 0 then ''slidedown'' else ''slideup''), None)])"
    by (rule touchEndHandler_active[OF f(1) assms(2)])
  show ?thesis
  proof (intro conjI impI)
    assume d: "direction s = Some X"
    show "\<forall>f \<in> set fs. fst f = Some ''movex''" using f(4) d by auto
    show "run ar opts w s0 (Start x0 y0 # moves ms @ [End]) =
                Inr (idle, fs @ [(Some (if \<bar>fl_sub ar lx x0\<bar> < minDistanceX opts then ''cancelx''
                                        else if 0 < fl_sub ar lx x0 then ''slideright''
                                        else ''slideleft''), None)])"
      unfolding f(5) e using d by simp
  next
    assume d: "direction s = Some Y"
    show "\<forall>f \<in> set fs. fst f = Some ''movey''" using f(4) d by auto
    show "run ar opts w s0 (Start x0 y0 # moves ms @ [End]) =
                Inr (idle, fs @ [(Some (if \<bar>fl_sub ar ly y0\<bar> < minDistanceY opts then ''cancely''
                                        else if 0 < fl_sub ar ly y0 then ''slidedown''
                                        else ''slideup''), None)])"
      unfolding f(5) e using d by simp
  qed
qed

theorem locked_axis_session_ends_in_slide_or_cancel_witness:
  "run exact (default_options exact) 300 idle (Start 0 0 # moves [(50, 2)])
     = Inr (\<lparr>startPos = Some (0, 0), lastPos = Some (50, 2), direction = Some X\<rparr>,
            [(Some ''movex'', Some 50)])
   \<and> run exact (default_options exact) 300 idle (Start 0 0 # moves [(50, 2)] @ [End])
     = Inr (idle, [(Some ''movex'', Some 50), (Some ''slideright'', None)])"
proof -
  have h: "run exact (default_options exact) 300 idle (Start 0 0 # moves [(50, 2)])
     = Inr (\<lparr>startPos = Some (0, 0), lastPos = Some (50, 2), direction = Some X\<rparr>,
            [(Some ''movex'', Some 50)])"
    by (simp add: run_simps eval_simps)
  show ?thesis
    using h locked_axis_session_ends_in_slide_or_cancel[OF h, of 50 2]
    by (simp add: default_options_def)
qed

text \<open>
  C3. After \<open>start\<close> and a sequence of \<open>move\<close>s, no axis is locked exactly when for
  every one of the moves the computed distance from the start position,
  \<open>Math.hypot(dx, dy)\<close> of the computed differences, is at most
  \<open>minDistance = min minDistanceX minDistanceY\<close> (the comparison that locks is a strict
  \<open>>\<close>); and an axis that is locked stays the same through any further moves. The gate
  is the combined threshold while the end of the session compares with the threshold of
  the axis, so a short diagonal drag locks an axis and still ends in a cancel: the last
  conjunct is such a session under the default options.
\<close>
theorem axis_lock_gate_and_permanence:
  assumes "run ar opts w s0 (Start x0 y0 # moves ms1) = Inr (s1, fs1)"
      and "run ar opts w s1 (moves ms2) = Inr (s2, fs2)"
  shows "minDistance opts = min (minDistanceX opts) (minDistanceY opts)
       \<and> ((direction s1 = None) =
            (\<forall>(x, y) \<in> set ms1. fl_hypot ar (fl_sub ar x x0) (fl_sub ar y y0) \<le> minDistance opts))
       \<and> (direction s1 \<noteq> None \<longrightarrow> direction s2 = direction s1)
       \<and> run exact (default_options exact) 300 idle [Start 0 0, Move 15 16, End]
           = Inr (idle, [(Some ''movey'', Some 16), (Some ''cancely'', None)])"
proof -
  note f = run_session_end[OF assms(1)]
  from run_moves[OF f(1), of ar opts w ms2] assms(2)
  have "direction s1 \<noteq> None \<longrightarrow> direction s2 = direction s1" by auto
  with f(3) example_lock_then_cancel show ?thesis by (simp add: minDistance_def)
qed

theorem axis_lock_gate_and_permanence_witness:
  "run exact (default_options exact) 300 idle (Start 0 0 # moves [(5, 2), (15, 16)])
     = Inr (\<lparr>startPos = Some (0, 0), lastPos = Some (15, 16), direction = Some Y\<rparr>,
            [(Some ''movey'', Some 16)])
   \<and> run exact (default_options exact) 300
        \<lparr>startPos = Some (0, 0), lastPos = Some (15, 16), direction = Some Y\<rparr>
        (moves [(100, 16)])
     = Inr (\<lparr>startPos = Some (0, 0), lastPos = Some (100, 16), direction = Some Y\<rparr>,
            [(Some ''movey'', Some 16)])
   \<and> \<not> (\<forall>(x, y) \<in> set [(5, 2), (15, 16)].
           fl_hypot exact (fl_sub exact x 0) (fl_sub exact y 0) \<le> minDistance (default_options exact))"
proof -
  have h1: "run exact (default_options exact) 300 idle (Start 0 0 # moves [(5, 2), (15, 16)])
     = Inr (\<lparr>startPos = Some (0, 0), lastPos = Some (15, 16), direction = Some Y\<rparr>,
            [(Some ''movey'', Some 16)])"
    by (simp add: run_simps eval_simps)
  have h2: "run exact (default_options exact) 300
        \<lparr>startPos = Some (0, 0), lastPos = Some (15, 16), direction = Some Y\<rparr>
        (moves [(100, 16)])
     = Inr (\<lparr>startPos = Some (0, 0), lastPos = Some (100, 16), direction = Some Y\<rparr>,
            [(Some ''movey'', Some 16)])"
    by (simp add: run_simps eval_simps)
  show ?thesis
    using h1 h2 axis_lock_gate_and_permanence[OF h1 h2, THEN conjunct2, THEN conjunct1]
    by simp
qed

text \<open>
  C4. When the computed distance is above \<open>minDistance\<close>, \<open>calculateDirection\<close> answers
  \<open>y\<close> exactly when the computed deviation of the angle \<open>Math.atan2(dy, dx)\<close> from the
  vertical ray on the side of the sign of \<open>dy\<close> is strictly below \<open>yRadian / 2\<close>, and
  \<open>x\<close> otherwise; on the boundary, where the two are equal, the answer is \<open>x\<close>. The code
  picks the ray by the sign of the angle, which is the sign of \<open>dy\<close> for every \<open>dy\<close>
  other than 0: that property of \<open>Math.atan2\<close> is the hypothesis. For \<open>dy = 0\<close> the sign
  of \<open>dy\<close> picks no ray and the sign of the angle decides.
\<close>
theorem axis_is_vertical_strictly_inside_window:
  assumes "dy \<noteq> 0 \<longrightarrow> (0 < fl_atan2 ar dy dx) = (0 < dy)"
  shows "calculateDirection ar opts dx dy =
           (if fl_hypot ar dx dy > minDistance opts
            then Some (spec_axis ar (yRadian opts) dx dy) else None)
       \<and> (spec_vertical_deviation ar dx dy = fl_div ar (yRadian opts) 2
            \<longrightarrow> spec_axis ar (yRadian opts) dx dy = X)"
proof -
  have s: "(if 0 < fl_atan2 ar dy dx then 1 else - 1) = spec_ray_sign ar dx dy"
    using assms by (auto simp: spec_ray_sign_def)
  show ?thesis
    unfolding calculateDirection_def Let_def s
    by (simp add: spec_axis_def spec_vertical_deviation_def)
qed

theorem axis_is_vertical_strictly_inside_window_witness:
  "(0 < fl_atan2 exact 30 30) = ((0::real) < 30)
   \<and> spec_vertical_deviation exact 30 30 = fl_div exact (yRadian (default_options exact)) 2
   \<and> calculateDirection exact (default_options exact) 30 30 = Some X
   \<and> calculateDirection exact (default_options exact) 30 31 = Some Y"
proof -
  have h: "(30::real) \<noteq> 0 \<longrightarrow> (0 < fl_atan2 exact 30 30) = ((0::real) < 30)"
    by (simp add: atan2_pos)
  have h': "(31::real) \<noteq> 0 \<longrightarrow> (0 < fl_atan2 exact 31 30) = ((0::real) < 31)"
    by (simp add: atan2_pos)
  have d: "spec_vertical_deviation exact 30 30 = fl_div exact (yRadian (default_options exact)) 2"
    using pi_gt_zero
    by (simp add: spec_vertical_deviation_def spec_ray_sign_def atan2_diagonal default_options_def)
  have y: "calculateDirection exact (default_options exact) 30 31 = Some Y"
    by (simp add: eval_simps)
  show ?thesis
    using h d y
      axis_is_vertical_strictly_inside_window[OF h, of "default_options exact"]
      axis_is_vertical_strictly_inside_window[OF h', of "default_options exact"]
    by (simp add: eval_simps)
qed

text \<open>
  C5. A \<open>move\<close> in an active session (a start position is recorded) stores the new last
  position and locks the axis if none is locked yet and the computed distance from the
  start position is above \<open>minDistance\<close>. If an axis is locked after that, also when it
  was locked by this very \<open>move\<close>, exactly one call of \<open>trigger\<close> is made: \<open>movex\<close> with
  the computed horizontal difference \<open>dx\<close> for the axis \<open>x\<close>, \<open>movey\<close> with the
  vertical one \<open>dy\<close> for \<open>y\<close>. If no axis is locked and the computed distance is at most
  \<open>minDistance\<close>, none is made.
\<close>
theorem move_fires_along_locked_axis:
  assumes "startPos s = Some (sx, sy)"
  shows "touchMoveHandler ar opts s x y =
           (let d = (if direction s = None then calculateDirection ar opts (fl_sub ar x sx) (fl_sub ar y sy)
                     else direction s)
            in Inr (s\<lparr>lastPos := Some (x, y), direction := d\<rparr>,
                    case d of
                      None \<Rightarrow> []
                    | Some X \<Rightarrow> [(Some ''movex'', Some (fl_sub ar x sx))]
                    | Some Y \<Rightarrow> [(Some ''movey'', Some (fl_sub ar y sy))]))
         \<and> ((calculateDirection ar opts (fl_sub ar x sx) (fl_sub ar y sy) = None)
              = (fl_hypot ar (fl_sub ar x sx) (fl_sub ar y sy) \<le> minDistance opts))"
proof
  show "touchMoveHandler ar opts s x y =
           (let d = (if direction s = None then calculateDirection ar opts (fl_sub ar x sx) (fl_sub ar y sy)
                     else direction s)
            in Inr (s\<lparr>lastPos := Some (x, y), direction := d\<rparr>,
                    case d of
                      None \<Rightarrow> []
                    | Some X \<Rightarrow> [(Some ''movex'', Some (fl_sub ar x sx))]
                    | Some Y \<Rightarrow> [(Some ''movey'', Some (fl_sub ar y sy))]))"
    unfolding touchMoveHandler_active[OF assms, of ar opts x y] Let_def
    by (simp split: option.splits Direction.splits)
  show "(calculateDirection ar opts (fl_sub ar x sx) (fl_sub ar y sy) = None)
              = (fl_hypot ar (fl_sub ar x sx) (fl_sub ar y sy) \<le> minDistance opts)"
    by (rule calculateDirection_None_iff)
qed

theorem move_fires_along_locked_axis_witness:
  "startPos (touchStartHandler 0 0) = Some (0, 0)
   \<and> touchMoveHandler exact (default_options exact) (touchStartHandler 0 0) 50 2 =
       Inr (\<lparr>startPos = Some (0, 0), lastPos = Some (50, 2), direction = Some X\<rparr>,
            [(Some ''movex'', Some 50)])
   \<and> touchMoveHandler exact (default_options exact) (touchStartHandler 0 0) 5 2 =
       Inr (\<lparr>startPos = Some (0, 0), lastPos = Some (5, 2), direction = None\<rparr>, [])"
  using move_fires_along_locked_axis[of "touchStartHandler 0 0" 0 0 exact "default_options exact" 50 2]
        move_fires_along_locked_axis[of "touchStartHandler 0 0" 0 0 exact "default_options exact" 5 2]
  by (simp add: eval_simps)

text \<open>
  C6. \<open>cancel\<close> resets the session and calls \<open>trigger\<close> once, with \<open>cancelx\<close> or
  \<open>cancely\<close> after the locked axis, and not at all when no axis is locked. An \<open>end\<close>
  with the start or the last position unset takes the path of \<open>cancel\<close>, a \<open>move\<close> with
  no start position changes nothing and fires nothing, and no sequence of signals, from
  any session state, ends in an error.
\<close>
theorem cancel_path_and_defensive_fallbacks:
  "touchCancelHandler s =
     (idle, case direction s of
              None \<Rightarrow> []
            | Some X \<Rightarrow> [(Some ''cancelx'', None)]
            | Some Y \<Rightarrow> [(Some ''cancely'', None)])
   \<and> (startPos s = None \<or> lastPos s = None \<longrightarrow>
        touchEndHandler ar opts w s = Inr (touchCancelHandler s))
   \<and> (startPos s = None \<longrightarrow> touchMoveHandler ar opts s x y = Inr (s, []))
   \<and> (\<exists>r. run ar opts w s gs = Inr r)"
  using run_no_error[of ar opts w s gs]
  by (auto simp: touchCancelHandler_def touchEndHandler_def touchMoveHandler_def
           split: option.splits Direction.splits)

theorem cancel_path_and_defensive_fallbacks_witness:
  "startPos idle = None
   \<and> touchEndHandler exact (default_options exact) 300 idle = Inr (idle, [])
   \<and> touchMoveHandler exact (default_options exact) idle 5 7 = Inr (idle, [])
   \<and> touchCancelHandler \<lparr>startPos = Some (0, 0), lastPos = Some (50, 2), direction = Some X\<rparr>
       = (idle, [(Some ''cancelx'', None)])"
  using cancel_path_and_defensive_fallbacks[of idle exact "default_options exact" 300 5 7 "[]"]
        cancel_path_and_defensive_fallbacks[of
          "\<lparr>startPos = Some (0, 0), lastPos = Some (50, 2), direction = Some X\<rparr>"
          exact "default_options exact" 300 5 7 "[]"]
  by (simp add: idle_def)

text \<open>
  C7, amended. Every action the classifier hands to \<open>trigger\<close>, in any sequence of
  signals from any session state, is one of the twelve strings \<open>touch\<close>, \<open>touchleft\<close>,
  \<open>touchright\<close>, \<open>touchmiddle\<close>, \<open>movex\<close>, \<open>movey\<close>, \<open>cancelx\<close>, \<open>cancely\<close>,
  \<open>slideup\<close>, \<open>slidedown\<close>, \<open>slideleft\<close>, \<open>slideright\<close>, written without hyphens, or
  is \<open>undefined\<close> (a tap outside the zones); each of the twelve is fired in some session
  that begins idle; the twelve registration methods register under exactly these names,
  one each; and \<open>addListener\<close> itself registers under whatever action it is given.
\<close>
theorem fired_and_registered_action_names:
  "(run ar opts w s gs = Inr (s', fs) \<longrightarrow>
      (\<forall>f \<in> set fs. fst f = None \<or> fst f \<in> Some ` set action_names))
   \<and> (\<forall>n \<in> set action_names. \<exists>opts w gs s' fs off.
         run exact opts w idle gs = Inr (s', fs) \<and> (Some n, off) \<in> set fs)
   \<and> map (\<lambda>m. dom (m Map.empty l)) registration_methods = map (\<lambda>n. {Some n}) action_names
   \<and> dom (addListener listeners a l) = insert a (dom listeners)
   \<and> length action_names = 12 \<and> distinct action_names"
proof -
  have mv: "''movex'' \<in> set action_names" "''movey'' \<in> set action_names"
    by (simp_all add: action_names_def)
  have a: "run ar opts w s gs = Inr (s', fs) \<longrightarrow>
      (\<forall>f \<in> set fs. fst f = None \<or> fst f \<in> Some ` set action_names)"
  proof (intro impI ballI)
    fix f assume "run ar opts w s gs = Inr (s', fs)" "f \<in> set fs"
    from run_fired[OF this] mv show "fst f = None \<or> fst f \<in> Some ` set action_names"
      by blast
  qed
  have b: "length action_names = 12 \<and> distinct action_names"
    by (simp add: action_names_def)
  from a b every_name_fires registration_methods_names[of l] dom_addListener[of listeners a l]
  show ?thesis by blast
qed

theorem fired_and_registered_action_names_witness:
  "run exact (default_options exact) 300 idle [Start 250 50, End] = Inr (idle, [(Some ''touchright'', None)])
   \<and> ''touchright'' \<in> set action_names"
  using example_tap_right
    fired_and_registered_action_names[of exact "default_options exact" 300 idle "[Start 250 50, End]" idle
      "[(Some ''touchright'', None)]", THEN conjunct1]
  by auto

theorem hyphenated_names_counterexample:
  "run exact (default_options exact) 300 idle [Start 250 50, End] = Inr (idle, [(Some ''touchright'', None)])
   \<and> ''touchright'' \<notin> set spec_action_names
   \<and> ''touch-right'' \<in> set spec_action_names
   \<and> trigger (onTouchRight Map.empty (0::nat)) (Some ''touch-right'') None = []
   \<and> trigger (onTouchRight Map.empty (0::nat)) (Some ''touchright'') None = [(0, [None])]"
  using example_tap_right
  by (simp add: spec_action_names_def trigger_def onTouchRight_def addListener_apply)

text \<open>
  C8, amended. Every call of \<open>trigger\<close> the classifier makes for \<open>movex\<close> or \<open>movey\<close>
  carries a numeric offset, and every other call carries \<open>null\<close>. \<open>trigger\<close> calls each
  listener registered for the action once, in the order of registration, with exactly
  one argument, the offset: a number for the two move actions and \<open>null\<close>, not an
  empty argument list, for all others.
\<close>
theorem listeners_called_in_order_with_offset:
  "(run ar opts w s gs = Inr (s', fs) \<longrightarrow>
      (\<forall>f \<in> set fs. if fst f = Some ''movex'' \<or> fst f = Some ''movey''
                      then snd f \<noteq> None else snd f = None))
   \<and> trigger (register_all Map.empty regs) a offset
       = map (\<lambda>listener. (listener, [offset])) (registered regs a)"
proof -
  have "run ar opts w s gs = Inr (s', fs) \<longrightarrow>
      (\<forall>f \<in> set fs. if fst f = Some ''movex'' \<or> fst f = Some ''movey''
                      then snd f \<noteq> None else snd f = None)"
  proof (intro impI ballI)
    fix f assume "run ar opts w s gs = Inr (s', fs)" "f \<in> set fs"
    from run_fired[OF this]
    show "if fst f = Some ''movex'' \<or> fst f = Some ''movey''
          then snd f \<noteq> None else snd f = None"
      by auto
  qed
  then show ?thesis using trigger_register_all[of regs a offset] by blast
qed

theorem listeners_called_in_order_with_offset_witness:
  "run exact (default_options exact) 300 idle [Start 0 0, Move 50 2, End]
     = Inr (idle, [(Some ''movex'', Some 50), (Some ''slideright'', None)])
   \<and> trigger (register_all Map.empty
        [(Some ''movex'', 1::nat), (Some ''slideright'', 2), (Some ''movex'', 3)])
        (Some ''movex'') (Some 50)
       = [(1, [Some 50]), (3, [Some 50])]
   \<and> trigger (register_all Map.empty
        [(Some ''movex'', 1::nat), (Some ''slideright'', 2), (Some ''movex'', 3)])
        (Some ''slideright'') None
       = [(2, [None])]"
  using example_slide_right
    listeners_called_in_order_with_offset[of exact "default_options exact" 300 idle "[Start 0 0, Move 50 2, End]"
      idle "[(Some ''movex'', Some 50), (Some ''slideright'', None)]"
      "[(Some ''movex'', 1::nat), (Some ''slideright'', 2), (Some ''movex'', 3)]"]
  by (simp add: registered_def)

theorem null_argument_counterexample:
  "run exact (default_options exact) 300 idle [Start 250 50, End] = Inr (idle, [(Some ''touchright'', None)])
   \<and> trigger (onTouchRight Map.empty (0::nat)) (Some ''touchright'') None = [(0, [None])]
   \<and> trigger (onTouchRight Map.empty (0::nat)) (Some ''touchright'') None \<noteq> [(0, [])]"
  using example_tap_right
  by (simp add: trigger_def onTouchRight_def addListener_apply)

text \<open>
  C9, amended. \<open>touchstart\<close> fires \<open>start\<close> and sets the flag \<open>touchStart\<close>, whatever
  the state of the mouse, and no event but \<open>mousedown\<close> clears the flag. The next
  \<open>mousedown\<close>, whatever came in between, only clears the flag: it fires nothing, leaves
  \<open>mouseDown\<close> as it was and installs no handler. The \<open>mousedown\<close> after that, with no
  \<open>touchstart\<close> in between, fires \<open>start\<close> and begins a mouse session. The suppression
  works in this one direction: a \<open>touchstart\<close> during a mouse session is not held back,
  so the two modalities are not exclusive of each other.
\<close>
theorem synthetic_mouse_down_suppressed_once:
  assumes "\<forall>e \<in> set es1. \<not> is_mousedown e"
      and "\<forall>e \<in> set es2. \<not> is_mousedown e \<and> \<not> is_touchstart e"
  shows "let n1 = fst (dom_run n0 (Touchstart tx ty # es1));
             n2 = fst (dom_run (n1\<lparr>touchStart := False\<rparr>) es2)
         in dom_step n0 (Touchstart tx ty)
              = (n0\<lparr>touchStart := True, touchHandlers := True\<rparr>, [Start tx ty])
          \<and> touchStart n1
          \<and> dom_step n1 (Mousedown x y) = (n1\<lparr>touchStart := False\<rparr>, [])
          \<and> \<not> touchStart n2
          \<and> dom_step n2 (Mousedown x' y')
              = (n2\<lparr>mouseDown := True, mouseHandlers := True\<rparr>, [Start x' y'])"
proof -
  define n1 where "n1 = fst (dom_run n0 (Touchstart tx ty # es1))"
  define n2 where "n2 = fst (dom_run (n1\<lparr>touchStart := False\<rparr>) es2)"
  have a: "\<forall>e \<in> set (Touchstart tx ty # es1). \<not> is_mousedown e" using assms(1) by simp
  have t1: "touchStart n1" unfolding n1_def dom_run_flag[OF a] by simp
  have b: "\<forall>e \<in> set es2. \<not> is_mousedown e" using assms(2) by simp
  have t2: "\<not> touchStart n2" unfolding n2_def dom_run_flag[OF b] using assms(2) by simp
  show ?thesis
    unfolding Let_def n1_def[symmetric] n2_def[symmetric]
    using t1 t2 by (simp add: tml_defs)
qed

theorem synthetic_mouse_down_suppressed_once_witness:
  "\<not> is_mousedown (Touchmove 12 11) \<and> \<not> is_mousedown Touchend
   \<and> \<not> is_mousedown Mouseup \<and> \<not> is_touchstart Mouseup
   \<and> \<not> is_mousedown (Mousemove 30 30) \<and> \<not> is_touchstart (Mousemove 30 30)
   \<and> dom_run initial_normalizer
        ([Touchstart 10 10, Touchmove 12 11, Touchend] @ [Mousedown 10 10]
         @ [Mouseup, Mousemove 30 30] @ [Mousedown 40 40])
      = (\<lparr>mouseDown = True, touchStart = False, mouseHandlers = True, touchHandlers = False\<rparr>,
         [Start 10 10, Move 12 11, End, Start 40 40])
   \<and> dom_step (fst (dom_run initial_normalizer [Touchstart 10 10, Touchmove 12 11, Touchend]))
        (Mousedown 10 10)
      = (initial_normalizer, [])"
proof -
  have h1: "\<forall>e \<in> set [Touchmove 12 11, Touchend]. \<not> is_mousedown e" by simp
  have h2: "\<forall>e \<in> set [Mouseup, Mousemove 30 30]. \<not> is_mousedown e \<and> \<not> is_touchstart e" by simp
  show ?thesis
    using h1 h2
      synthetic_mouse_down_suppressed_once[OF h1 h2, of initial_normalizer 10 10 10 10 40 40]
    by (simp add: tml_defs initial_normalizer_def Let_def)
qed

theorem touch_during_mouse_session_counterexample:
  "dom_run initial_normalizer [Mousedown 1 2, Touchstart 3 4, Mousemove 5 6, Touchmove 7 8]
     = (\<lparr>mouseDown = True, touchStart = True, mouseHandlers = True, touchHandlers = True\<rparr>,
        [Start 1 2, Start 3 4, Move 5 6, Move 7 8])"
  by (simp add: tml_defs initial_normalizer_def)

text \<open>
  C10. The claim holds that a ratio of exactly 1 keeps \<open>pos = config.max\<close>. In the code
  the \<open>else\<close> belongs to the second \<open>if\<close>, so for ratio 1 the first assignment is
  overwritten by the rounded and clamped value: with \<open>min = 0\<close>, \<open>max = 10\<close>,
  \<open>step = 3\<close> the position is 9, not 10, under every arithmetic that computes
  \<open>10 - 0\<close>, \<open>10 * 1\<close>, \<open>3 * 3\<close> and \<open>9 + 0\<close> exactly and \<open>10 / 3\<close> to a number that
  rounds to 3, as that of the doubles does. It is ratio 0 that keeps its assignment.
\<close>
theorem setRatio_one_is_overwritten:
  assumes "fl_sub ar 10 0 = 10" and "fl_mul ar 10 1 = 10"
      and "5 / 2 \<le> fl_div ar 10 3" and "fl_div ar 10 3 < 7 / 2"
      and "fl_mul ar 3 3 = 9" and "fl_add ar 9 0 = 9"
  shows "normalizeConfig (Some 0) (Some 10) (Some 3) = \<lparr>min_cfg = 0, max_cfg = 10, step_cfg = 3\<rparr>
       \<and> setRatio ar (normalizeConfig (Some 0) (Some 10) (Some 3)) 1 = Some 9
       \<and> max_cfg (normalizeConfig (Some 0) (Some 10) (Some 3)) = 10
       \<and> setRatio ar (normalizeConfig (Some 0) (Some 10) (Some 3)) 0 = Some 0"
proof -
  have c: "normalizeConfig (Some 0) (Some 10) (Some 3)
             = \<lparr>min_cfg = 0, max_cfg = 10, step_cfg = 3\<rparr>"
    by (simp add: normalizeConfig_def)
  have "\<lfloor>fl_div ar 10 3 + 1 / 2\<rfloor> = 3"
    using assms(3,4) by linarith
  then have r: "Math_round (fl_div ar 10 3) = 3"
    by (simp add: Math_round_def)
  have one: "setRatio ar \<lparr>min_cfg = 0, max_cfg = 10, step_cfg = 3\<rparr> 1 = Some 9"
    using r assms(1,2,5,6) by (simp add: setRatio_def Let_def)
  have zero: "setRatio ar \<lparr>min_cfg = 0, max_cfg = 10, step_cfg = 3\<rparr> 0 = Some 0"
    by (simp add: setRatio_def Let_def)
  show ?thesis unfolding c using one zero by simp
qed

theorem setRatio_one_is_overwritten_witness:
  "fl_sub exact 10 0 = 10 \<and> fl_mul exact 10 1 = 10
   \<and> 5 / 2 \<le> fl_div exact 10 3 \<and> fl_div exact 10 3 < 7 / 2
   \<and> fl_mul exact 3 3 = 9 \<and> fl_add exact 9 0 = 9
   \<and> setRatio exact (normalizeConfig (Some 0) (Some 10) (Some 3)) 1 = Some 9
   \<and> max_cfg (normalizeConfig (Some 0) (Some 10) (Some 3)) = 10
   \<and> setRatio exact (normalizeConfig (Some 0) (Some 10) (Some 3)) 0 = Some 0"
proof -
  have h: "fl_sub exact 10 0 = 10" "fl_mul exact 10 1 = 10"
      "5 / 2 \<le> fl_div exact 10 3" "fl_div exact 10 3 < 7 / 2"
      "fl_mul exact 3 3 = 9" "fl_add exact 9 0 = 9"
    by simp_all
  from h setRatio_one_is_overwritten[OF h] show ?thesis by blast
qed

end
